theory Spec2Isabelle
  imports Main "HOL-Library.Multiset"
begin

unbundle bit_operations_syntax

section \<open>Data model of GfxRenderer2.ts\<close>

text \<open>
  Exceptions of the host language are values: a property access on \<open>undefined\<close> is a
  \<open>TypeError\<close>, a failed \<open>assert\<close> is an \<open>AssertionFailed\<close>. A function that can throw
  returns \<open>error + 'a\<close>; the state reached before the throw is not kept.
\<close>

datatype error = TypeError | AssertionFailed

text \<open>
  Handles of objects owned by collaborators (programs, input layouts, input states, textures,
  samplers, buffers, pipelines, bindings, the dynamic uniform buffer) are natural numbers;
  \<open>None\<close> stands for \<open>null\<close> or \<open>undefined\<close>. Numbers that the source only stores and
  compares (sort keys, word counts, offsets, draw ranges) are integers.
\<close>

record GfxBindingLayoutDescriptor =
  numUniformBuffers :: nat
  numSamplers :: nat

record GfxSamplerBinding =
  sampler :: "nat option"
  texture :: "nat option"

record GfxBufferBinding =
  buffer :: "nat option"
  wordOffset :: int
  wordCount :: int

record GfxBindingsDescriptor =
  bindingLayout :: "GfxBindingLayoutDescriptor option"
  samplerBindings :: "GfxSamplerBinding list"
  uniformBufferBindings :: "GfxBufferBinding list"

text \<open>
  A mega-state descriptor gives a value to every one of its fields (numbered here); a
  \<open>Partial<GfxMegaStateDescriptor>\<close> gives a value to some of them.
\<close>

type_synonym GfxMegaStateDescriptor = "nat \<Rightarrow> int"
type_synonym PartialMegaState = "nat \<Rightarrow> int option"

record GfxRenderPipelineDescriptor =
  bindingLayouts :: "GfxBindingLayoutDescriptor list"
  inputLayout :: "nat option"
  megaStateDescriptor :: GfxMegaStateDescriptor
  program :: "nat option"
  topology :: nat

text \<open>
  The class \<open>GfxRenderInst\<close>. \<open>_bindingDescriptors\<close> is an array of exactly one descriptor
  (\<open>nArray(1, ...)\<close>), of which the source only ever uses element 0: the field holds that
  element. An array of numbers can get holes when it is written past its end, so the
  elements of \<open>_dynamicUniformBufferOffsets\<close> are optional.
\<close>

record GfxRenderInst =
  sortKey :: int
  passMask :: int
  renderPipelineDescriptor :: GfxRenderPipelineDescriptor
  uniformBuffer :: "nat option"
  bindingDescriptors :: GfxBindingsDescriptor
  dynamicUniformBufferOffsets :: "int option list"
  flags :: nat
  parentTemplateIndex :: int
  inputState :: "nat option"
  drawStart :: "int option"
  drawCount :: "int option"

definition VISIBLE :: nat where
  "VISIBLE = push_bit 0 1"

definition DRAW_INDEXED :: nat where
  "DRAW_INDEXED = push_bit 1 1"

definition TRIANGLES :: nat where
  "TRIANGLES = 0"

text \<open>
  Modelled from the spec: \<open>defaultMegaState\<close> and \<open>copyMegaState\<close> live in
  GfxMegaStateDescriptorHelpers, which is not among the sources ("default-state
  construction, full copy"). The default values play no role in what follows.
\<close>

definition defaultMegaState :: GfxMegaStateDescriptor where
  "defaultMegaState = (\<lambda>_. 0)"

definition copyMegaState :: "GfxMegaStateDescriptor \<Rightarrow> GfxMegaStateDescriptor" where
  "copyMegaState src = src"

text \<open>
  Modelled from the spec: \<open>setMegaStateFlags(dst, partial)\<close> "overlays only the fields
  present in partial".
\<close>

definition setMegaStateFlags_helper ::
    "GfxMegaStateDescriptor \<Rightarrow> PartialMegaState \<Rightarrow> GfxMegaStateDescriptor" where
  "setMegaStateFlags_helper dst r = (\<lambda>f. case r f of None \<Rightarrow> dst f | Some v \<Rightarrow> v)"

text \<open>The constructor together with the field initialisers.\<close>

definition new_GfxRenderInst :: GfxRenderInst where
  "new_GfxRenderInst =
     \<lparr> sortKey = 0,
       passMask = 0,
       renderPipelineDescriptor =
         \<lparr> bindingLayouts = [],
           inputLayout = None,
           megaStateDescriptor = copyMegaState defaultMegaState,
           program = None,
           topology = TRIANGLES \<rparr>,
       uniformBuffer = None,
       bindingDescriptors =
         \<lparr> bindingLayout = None, samplerBindings = [], uniformBufferBindings = [] \<rparr>,
       dynamicUniformBufferOffsets = replicate 4 (Some 0),
       flags = 0,
       parentTemplateIndex = -1,
       inputState = None,
       drawStart = None,
       drawCount = None \<rparr>"

subsection \<open>Arrays of the host language\<close>

text \<open>Reading \<open>xs[i]\<close>: \<open>undefined\<close> outside the array.\<close>

definition js_get :: "'a list \<Rightarrow> int \<Rightarrow> 'a option" where
  "js_get xs i = (if 0 \<le> i \<and> nat i < length xs then Some (xs ! nat i) else None)"

text \<open>Writing \<open>xs[i] = v\<close>: past the end the array grows, leaving holes.\<close>

definition js_set :: "'a option list \<Rightarrow> nat \<Rightarrow> 'a \<Rightarrow> 'a option list" where
  "js_set xs i v =
     (if i < length xs then xs[i := Some v]
      else xs @ replicate (i - length xs) None @ [Some v])"

text \<open>Writing \<open>xs[0] = v\<close> on an array without holes.\<close>

definition js_set0 :: "'a list \<Rightarrow> 'a \<Rightarrow> 'a list" where
  "js_set0 xs v = (case xs of [] \<Rightarrow> [v] | _ # rest \<Rightarrow> v # rest)"

text \<open>\<open>xs.findIndex(P)\<close>: the first index whose element satisfies \<open>P\<close>, or -1.\<close>

fun findIndex :: "('a \<Rightarrow> bool) \<Rightarrow> 'a list \<Rightarrow> int" where
  "findIndex P [] = -1"
| "findIndex P (x # xs) =
     (if P x then 0 else (let r = findIndex P xs in if r < 0 then -1 else r + 1))"

text \<open>
  \<open>xs.sort(cmp)\<close> is the host's. It is modelled as the stable insertion sort: each element
  in turn is placed before the first element of the sorted part that the comparator puts
  after it (\<open>cmp x y < 0\<close>), which is where a binary insertion that tests \<open>cmp x y < 0\<close>
  places it too.
\<close>

fun sort_insert :: "('a \<Rightarrow> 'a \<Rightarrow> int) \<Rightarrow> 'a \<Rightarrow> 'a list \<Rightarrow> 'a list" where
  "sort_insert cmp x [] = [x]"
| "sort_insert cmp x (y # ys) =
     (if cmp x y < 0 then x # y # ys else y # sort_insert cmp x ys)"

definition array_sort :: "('a \<Rightarrow> 'a \<Rightarrow> int) \<Rightarrow> 'a list \<Rightarrow> 'a list" where
  "array_sort cmp xs = foldl (\<lambda>acc x. sort_insert cmp x acc) [] xs"

section \<open>GfxRenderInst\<close>

definition inst_reset :: "GfxRenderInst \<Rightarrow> GfxRenderInst" where
  "inst_reset this = this\<lparr> sortKey := 0, passMask := 0 \<rparr>"

definition setGfxProgram :: "nat \<Rightarrow> GfxRenderInst \<Rightarrow> GfxRenderInst" where
  "setGfxProgram prog this =
     this\<lparr> renderPipelineDescriptor := (renderPipelineDescriptor this)\<lparr> program := Some prog \<rparr> \<rparr>"

definition setMegaStateFlags :: "PartialMegaState \<Rightarrow> GfxRenderInst \<Rightarrow> GfxRenderInst" where
  "setMegaStateFlags r this =
     this\<lparr> renderPipelineDescriptor := (renderPipelineDescriptor this)
       \<lparr> megaStateDescriptor :=
           setMegaStateFlags_helper (megaStateDescriptor (renderPipelineDescriptor this)) r \<rparr> \<rparr>"

text \<open>
  \<open>setInputState\<close>: \<open>queryInputState\<close> is the device's; it is the parameter that gives the
  input layout of an input state.
\<close>

definition setInputState :: "(nat \<Rightarrow> nat) \<Rightarrow> nat option \<Rightarrow> GfxRenderInst \<Rightarrow> GfxRenderInst" where
  "setInputState queryInputState inp this =
     this\<lparr> inputState := inp,
            renderPipelineDescriptor := (renderPipelineDescriptor this)
              \<lparr> inputLayout := (case inp of None \<Rightarrow> None | Some s \<Rightarrow> Some (queryInputState s)) \<rparr> \<rparr>"

definition drawIndexes :: "int \<Rightarrow> int \<Rightarrow> GfxRenderInst \<Rightarrow> GfxRenderInst" where
  "drawIndexes indexCount indexStart this =
     this\<lparr> flags := flags this OR DRAW_INDEXED,
            drawCount := Some indexCount,
            drawStart := Some indexStart \<rparr>"

definition drawPrimitives :: "int \<Rightarrow> int \<Rightarrow> GfxRenderInst \<Rightarrow> GfxRenderInst" where
  "drawPrimitives primitiveCount primitiveStart this =
     this\<lparr> drawCount := Some primitiveCount, drawStart := Some primitiveStart \<rparr>"

text \<open>The loop \<open>for (i = xs.length; i < n; i++) xs.push(d)\<close>.\<close>

definition grow :: "'a list \<Rightarrow> nat \<Rightarrow> 'a \<Rightarrow> 'a list" where
  "grow xs n d = xs @ replicate (n - length xs) d"

definition setBindingLayout ::
    "GfxBindingLayoutDescriptor \<Rightarrow> GfxRenderInst \<Rightarrow> error + GfxRenderInst" where
  "setBindingLayout bl this =
     (if \<not> numUniformBuffers bl < length (dynamicUniformBufferOffsets this)
      then Inl AssertionFailed
      else
        let rpd = renderPipelineDescriptor this;
            bd = bindingDescriptors this
        in Inr (this
          \<lparr> renderPipelineDescriptor := rpd\<lparr> bindingLayouts := js_set0 (bindingLayouts rpd) bl \<rparr>,
            bindingDescriptors := bd
              \<lparr> bindingLayout := Some bl,
                uniformBufferBindings :=
                  grow (uniformBufferBindings bd) (numUniformBuffers bl)
                    \<lparr> buffer = None, wordOffset = 0, wordCount = 0 \<rparr>,
                samplerBindings :=
                  grow (samplerBindings bd) (numSamplers bl)
                    \<lparr> sampler = None, texture = None \<rparr> \<rparr> \<rparr>))"

text \<open>\<open>_bindingDescriptors.length\<close> is 1 throughout.\<close>

definition setBindingBase ::
    "GfxBindingLayoutDescriptor list \<Rightarrow> nat \<Rightarrow> GfxRenderInst \<Rightarrow> error + GfxRenderInst" where
  "setBindingBase layouts ub this =
     (if \<not> length layouts \<le> 1 then Inl AssertionFailed
      else if length layouts \<noteq> 1 then Inl AssertionFailed
      else
        (case setBindingLayout (layouts ! 0) this of
           Inl e \<Rightarrow> Inl e
         | Inr this' \<Rightarrow> Inr (this'\<lparr> uniformBuffer := Some ub \<rparr>)))"

text \<open>
  \<open>setSamplerBindings\<close>: entry \<open>i\<close> of the instance is overwritten field by field; a
  missing entry (\<open>dst\<close> undefined) is a TypeError.
\<close>

fun setSamplers ::
    "GfxSamplerBinding list \<Rightarrow> GfxSamplerBinding list \<Rightarrow> error + GfxSamplerBinding list" where
  "setSamplers [] dsts = Inr dsts"
| "setSamplers (s # m) [] = Inl TypeError"
| "setSamplers (s # m) (dst # dsts) =
     (case setSamplers m dsts of
        Inl e \<Rightarrow> Inl e
      | Inr dsts' \<Rightarrow> Inr (dst\<lparr> texture := texture s, sampler := sampler s \<rparr> # dsts'))"

definition setSamplerBindings ::
    "GfxSamplerBinding list \<Rightarrow> GfxRenderInst \<Rightarrow> error + GfxRenderInst" where
  "setSamplerBindings m this =
     (case setSamplers m (samplerBindings (bindingDescriptors this)) of
        Inl e \<Rightarrow> Inl e
      | Inr sbs \<Rightarrow>
          Inr (this\<lparr> bindingDescriptors := (bindingDescriptors this)\<lparr> samplerBindings := sbs \<rparr> \<rparr>))"

text \<open>
  The last loop of \<open>setFromTemplate\<close>: for \<open>i < n\<close>, the word count of entry \<open>i\<close> is taken
  from the template's entry \<open>i\<close>; a missing entry on either side is a TypeError.
\<close>

fun copyWordCounts ::
    "nat \<Rightarrow> GfxBufferBinding list \<Rightarrow> GfxBufferBinding list \<Rightarrow> error + GfxBufferBinding list" where
  "copyWordCounts 0 srcs dsts = Inr dsts"
| "copyWordCounts (Suc n) (src # srcs) (dst # dsts) =
     (case copyWordCounts n srcs dsts of
        Inl e \<Rightarrow> Inl e
      | Inr dsts' \<Rightarrow> Inr (dst\<lparr> wordCount := wordCount src \<rparr> # dsts'))"
| "copyWordCounts (Suc n) srcs dsts = Inl TypeError"

definition setFromTemplate :: "GfxRenderInst \<Rightarrow> GfxRenderInst \<Rightarrow> error + GfxRenderInst" where
  "setFromTemplate this o' =
     (let rpd = renderPipelineDescriptor this;
          ord = renderPipelineDescriptor o';
          this1 = this
            \<lparr> renderPipelineDescriptor := rpd
                \<lparr> megaStateDescriptor :=
                    setMegaStateFlags_helper (megaStateDescriptor rpd)
                      (\<lambda>f. Some (megaStateDescriptor ord f)),
                  program := program ord,
                  inputLayout := inputLayout ord,
                  topology := topology ord \<rparr>,
              inputState := inputState o',
              uniformBuffer := uniformBuffer o' \<rparr>
      in
        case bindingLayout (bindingDescriptors o') of
          None \<Rightarrow> Inl TypeError
        | Some bl \<Rightarrow>
            (case setBindingLayout bl this1 of
               Inl e \<Rightarrow> Inl e
             | Inr this2 \<Rightarrow>
                 (case setSamplerBindings (samplerBindings (bindingDescriptors o')) this2 of
                    Inl e \<Rightarrow> Inl e
                  | Inr this3 \<Rightarrow>
                      (case copyWordCounts (numUniformBuffers bl)
                              (uniformBufferBindings (bindingDescriptors o'))
                              (uniformBufferBindings (bindingDescriptors this3)) of
                         Inl e \<Rightarrow> Inl e
                       | Inr ubs \<Rightarrow>
                           Inr (this3\<lparr> bindingDescriptors :=
                                  (bindingDescriptors this3)\<lparr> uniformBufferBindings := ubs \<rparr> \<rparr>)))))"

text \<open>
  \<open>allocateUniformBuffer\<close>. The dynamic uniform buffer is a collaborator: its
  \<open>allocateChunk\<close> is the parameter \<open>allocateChunk ub wordCount u\<close>, which answers with an
  offset and the collaborator's new state \<open>u\<close>. The statements run in the source's order:
  the assertion, the chunk allocation, the write into the offsets array, then the binding
  \<open>dst\<close>, which is \<open>undefined\<close> when \<open>bufferIndex\<close> is past the binding array.
\<close>

definition allocateUniformBuffer ::
    "(nat \<Rightarrow> int \<Rightarrow> 'u \<Rightarrow> int \<times> 'u) \<Rightarrow> nat \<Rightarrow> int \<Rightarrow> GfxRenderInst \<Rightarrow> 'u
      \<Rightarrow> error + (int option \<times> GfxRenderInst \<times> 'u)" where
  "allocateUniformBuffer allocateChunk bufferIndex wc this u =
     (case bindingLayout (bindingDescriptors this) of
        None \<Rightarrow> Inl TypeError
      | Some bl \<Rightarrow>
          if \<not> numUniformBuffers bl < length (dynamicUniformBufferOffsets this)
          then Inl AssertionFailed
          else
            (case uniformBuffer this of
               None \<Rightarrow> Inl TypeError
             | Some ub \<Rightarrow>
                 let (off, u') = allocateChunk ub wc u;
                     offs = js_set (dynamicUniformBufferOffsets this) bufferIndex off;
                     bd = bindingDescriptors this
                 in
                   if \<not> bufferIndex < length (uniformBufferBindings bd) then Inl TypeError
                   else
                     let dst = (uniformBufferBindings bd ! bufferIndex)
                                 \<lparr> wordOffset := 0, wordCount := wc \<rparr>
                     in Inr (offs ! bufferIndex,
                             this\<lparr> dynamicUniformBufferOffsets := offs,
                                    bindingDescriptors := bd
                                      \<lparr> uniformBufferBindings :=
                                          (uniformBufferBindings bd)[bufferIndex := dst] \<rparr> \<rparr>,
                             u')))"

definition copyUniformBufferBinding ::
    "nat \<Rightarrow> GfxRenderInst \<Rightarrow> GfxRenderInst \<Rightarrow> error + GfxRenderInst" where
  "copyUniformBufferBinding bufferIndex src this =
     (case bindingLayout (bindingDescriptors this) of
        None \<Rightarrow> Inl TypeError
      | Some bl \<Rightarrow>
          if \<not> numUniformBuffers bl < length (dynamicUniformBufferOffsets this)
          then Inl AssertionFailed
          else
            let bd = bindingDescriptors this;
                sbs = uniformBufferBindings (bindingDescriptors src)
            in
              if \<not> bufferIndex < length sbs then Inl TypeError
              else if \<not> bufferIndex < length (uniformBufferBindings bd) then Inl TypeError
              else
                Inr (this\<lparr> bindingDescriptors := bd
                       \<lparr> uniformBufferBindings :=
                           (uniformBufferBindings bd)
                             [bufferIndex := (uniformBufferBindings bd ! bufferIndex)
                                \<lparr> wordOffset := wordOffset (sbs ! bufferIndex) \<rparr>] \<rparr> \<rparr>))"

subsection \<open>Submitting one instance\<close>

text \<open>
  The device and the cache are collaborators; what they answer is a parameter:
  the pipeline the cache resolves for a pipeline descriptor, whether the device reports
  that pipeline ready, the bindings the cache resolves for a bindings descriptor, and the
  buffer behind a dynamic uniform buffer.
\<close>

record Collaborators =
  createRenderPipeline :: "GfxRenderPipelineDescriptor \<Rightarrow> nat"
  queryPipelineReady :: "nat \<Rightarrow> bool"
  createBindings :: "GfxBindingsDescriptor \<Rightarrow> nat"
  gfxBuffer :: "nat \<Rightarrow> nat option"

text \<open>The render pass is the list of the calls made on it, oldest first.\<close>

datatype GfxRenderPassCall =
    SetPipeline nat
  | SetInputState "nat option"
  | SetBindings nat nat "int option list"
  | DrawIndexed "int option" "int option"
  | Draw "int option" "int option"

text \<open>
  The loop that stores the uniform buffer's \<open>gfxBuffer\<close> in every uniform-buffer binding.
  With no binding the loop body never runs, so an undefined \<open>_uniformBuffer\<close> is only a
  TypeError when there is a binding.
\<close>

definition fillBuffers ::
    "Collaborators \<Rightarrow> nat option \<Rightarrow> GfxBufferBinding list \<Rightarrow> error + GfxBufferBinding list" where
  "fillBuffers env ub bs =
     (if bs = [] then Inr bs
      else
        (case ub of
           None \<Rightarrow> Inl TypeError
         | Some u \<Rightarrow> Inr (map (\<lambda>b. b\<lparr> buffer := gfxBuffer env u \<rparr>) bs)))"

definition drawOnPass ::
    "Collaborators \<Rightarrow> GfxRenderInst \<Rightarrow> GfxRenderPassCall list
      \<Rightarrow> error + (GfxRenderInst \<times> GfxRenderPassCall list)" where
  "drawOnPass env this pass =
     (let gfxPipeline = createRenderPipeline env (renderPipelineDescriptor this) in
        if \<not> queryPipelineReady env gfxPipeline then Inr (this, pass)
        else
          let pass1 = pass @ [SetPipeline gfxPipeline, SetInputState (inputState this)] in
            (case fillBuffers env (uniformBuffer this)
                    (uniformBufferBindings (bindingDescriptors this)) of
               Inl e \<Rightarrow> Inl e
             | Inr bs \<Rightarrow>
                 let this' = this\<lparr> bindingDescriptors :=
                               (bindingDescriptors this)\<lparr> uniformBufferBindings := bs \<rparr> \<rparr>;
                     gfxBindings = createBindings env (bindingDescriptors this');
                     pass2 = pass1 @
                       [SetBindings 0 gfxBindings (dynamicUniformBufferOffsets this')]
                 in
                   if flags this' AND DRAW_INDEXED \<noteq> 0
                   then Inr (this', pass2 @ [DrawIndexed (drawCount this') (drawStart this')])
                   else Inr (this', pass2 @ [Draw (drawCount this') (drawStart this')])))"

section \<open>GfxRenderInstPool\<close>

text \<open>
  Instances are objects: the array \<open>pool\<close> holds references, sorting it moves references,
  and the manager hands references out. So the pool is modelled with an explicit store:
  \<open>insts\<close> lists every instance ever constructed, an instance's address is its position in
  \<open>insts\<close>, and \<open>pool\<close> is the array of addresses.
\<close>

record GfxRenderInstPool =
  insts :: "GfxRenderInst list"
  pool :: "nat list"
  renderInstAllocCount :: nat
  renderInstFreeCount :: nat

definition new_GfxRenderInstPool :: GfxRenderInstPool where
  "new_GfxRenderInstPool =
     \<lparr> insts = [], pool = [], renderInstAllocCount = 0, renderInstFreeCount = 0 \<rparr>"

text \<open>The instance behind the reference at position \<open>i\<close> of the array.\<close>

definition instAt :: "GfxRenderInstPool \<Rightarrow> nat \<Rightarrow> GfxRenderInst" where
  "instAt p i = insts p ! (pool p ! i)"

definition allocRenderInstIndex :: "GfxRenderInstPool \<Rightarrow> int \<times> GfxRenderInstPool" where
  "allocRenderInstIndex p =
     (if renderInstFreeCount p > 0 then
        (findIndex (\<lambda>a. flags (insts p ! a) = 0) (pool p),
         p\<lparr> renderInstFreeCount := renderInstFreeCount p - 1 \<rparr>)
      else
        let p1 = p\<lparr> renderInstAllocCount := renderInstAllocCount p + 1 \<rparr>;
            p2 = (if renderInstAllocCount p1 > length (pool p1)
                  then p1\<lparr> insts := insts p1 @ [new_GfxRenderInst],
                           pool := pool p1 @ [length (insts p1)] \<rparr>
                  else p1)
        in (int (renderInstAllocCount p2) - 1, p2))"

text \<open>\<open>returnRenderInst\<close> takes the instance itself, that is, its address.\<close>

definition returnRenderInst :: "nat \<Rightarrow> GfxRenderInstPool \<Rightarrow> GfxRenderInstPool" where
  "returnRenderInst a p =
     p\<lparr> insts := (insts p)[a := (insts p ! a)\<lparr> flags := 0 \<rparr>],
        renderInstFreeCount := renderInstFreeCount p + 1 \<rparr>"

text \<open>
  The loop of \<open>reset\<close>, over the references at positions \<open>0 .. renderInstAllocCount - 1\<close>.
  A position past the array is \<open>undefined\<close>, whose \<open>_flags\<close> cannot be written.
\<close>

fun clearFlags :: "nat list \<Rightarrow> GfxRenderInst list \<Rightarrow> GfxRenderInst list" where
  "clearFlags [] h = h"
| "clearFlags (a # as) h = clearFlags as (h[a := (h ! a)\<lparr> flags := 0 \<rparr>])"

definition pool_reset :: "GfxRenderInstPool \<Rightarrow> error + GfxRenderInstPool" where
  "pool_reset p =
     (if renderInstAllocCount p > length (pool p) then Inl TypeError
      else Inr (p\<lparr> insts := clearFlags (take (renderInstAllocCount p) (pool p)) (insts p),
                   renderInstAllocCount := 0 \<rparr>))"

definition pool_destroy :: "GfxRenderInstPool \<Rightarrow> GfxRenderInstPool" where
  "pool_destroy p = p\<lparr> pool := [], renderInstAllocCount := 0 \<rparr>"

definition compareRenderInsts :: "GfxRenderInst \<Rightarrow> GfxRenderInst \<Rightarrow> int" where
  "compareRenderInsts a b =
     (if flags a AND VISIBLE = 0 then 1
      else if flags b AND VISIBLE = 0 then -1
      else sortKey a - sortKey b)"

section \<open>GfxRenderInstManager\<close>

record GfxRenderInstManager =
  gfxRenderInstPool :: GfxRenderInstPool
  renderInstTemplateIndex :: int

definition new_GfxRenderInstManager :: GfxRenderInstManager where
  "new_GfxRenderInstManager =
     \<lparr> gfxRenderInstPool = new_GfxRenderInstPool, renderInstTemplateIndex = -1 \<rparr>"

text \<open>
  \<open>pushRenderInst\<close> returns the instance (its address) with the manager's new state. The
  references \<open>pool[renderInstIndex]\<close> and \<open>pool[renderInstTemplateIndex]\<close> are read after
  the allocation; either is \<open>undefined\<close> outside the array, and a method call or field
  access on it is a TypeError. Both references can be one object; \<open>setFromTemplate\<close> then
  copies the object onto itself, and every assignment writes the value that is there.
\<close>

definition pushRenderInst :: "GfxRenderInstManager \<Rightarrow> error + (nat \<times> GfxRenderInstManager)" where
  "pushRenderInst m =
     (let (renderInstIndex, p) = allocRenderInstIndex (gfxRenderInstPool m) in
        case js_get (pool p) renderInstIndex of
          None \<Rightarrow> Inl TypeError
        | Some a \<Rightarrow>
            (case (if renderInstTemplateIndex m \<ge> 0
                   then (case js_get (pool p) (renderInstTemplateIndex m) of
                           None \<Rightarrow> Inl TypeError
                         | Some t \<Rightarrow> setFromTemplate (insts p ! a) (insts p ! t))
                   else Inr (inst_reset (insts p ! a))) of
               Inl e \<Rightarrow> Inl e
             | Inr renderInst \<Rightarrow>
                 Inr (a, m\<lparr> gfxRenderInstPool :=
                             p\<lparr> insts := (insts p)[a := renderInst\<lparr> flags := VISIBLE \<rparr>] \<rparr> \<rparr>)))"

text \<open>
  \<open>pushTemplateRenderInst\<close> touches the new template only when a template is active:
  with none active an \<open>undefined\<close> \<open>pool[newTemplateIndex]\<close> is returned as it is.
\<close>

definition pushTemplateRenderInst ::
    "GfxRenderInstManager \<Rightarrow> error + (nat option \<times> GfxRenderInstManager)" where
  "pushTemplateRenderInst m =
     (let (newTemplateIndex, p) = allocRenderInstIndex (gfxRenderInstPool m) in
        case js_get (pool p) newTemplateIndex of
          None \<Rightarrow>
            (if renderInstTemplateIndex m \<ge> 0 then Inl TypeError
             else Inr (None, \<lparr> gfxRenderInstPool = p,
                                renderInstTemplateIndex = newTemplateIndex \<rparr>))
        | Some a \<Rightarrow>
            (case (if renderInstTemplateIndex m \<ge> 0
                   then (case js_get (pool p) (renderInstTemplateIndex m) of
                           None \<Rightarrow> Inl TypeError
                         | Some t \<Rightarrow>
                             (case setFromTemplate (insts p ! a) (insts p ! t) of
                                Inl e \<Rightarrow> Inl e
                              | Inr newTemplate \<Rightarrow>
                                  Inr (newTemplate
                                    \<lparr> parentTemplateIndex := renderInstTemplateIndex m \<rparr>)))
                   else Inr (insts p ! a)) of
               Inl e \<Rightarrow> Inl e
             | Inr newTemplate \<Rightarrow>
                 Inr (Some a,
                      \<lparr> gfxRenderInstPool = p\<lparr> insts := (insts p)[a := newTemplate] \<rparr>,
                        renderInstTemplateIndex = newTemplateIndex \<rparr>)))"

definition popTemplateRenderInst :: "GfxRenderInstManager \<Rightarrow> error + GfxRenderInstManager" where
  "popTemplateRenderInst m =
     (let p = gfxRenderInstPool m in
        case js_get (pool p) (renderInstTemplateIndex m) of
          None \<Rightarrow> Inl TypeError
        | Some a \<Rightarrow>
            let p' = returnRenderInst a p in
              Inr \<lparr> gfxRenderInstPool = p',
                    renderInstTemplateIndex = parentTemplateIndex (insts p' ! a) \<rparr>)"

text \<open>The sort step of \<open>executeOnPass\<close>: \<open>pool.sort(compareRenderInsts)\<close>.\<close>

definition sortPool :: "GfxRenderInstPool \<Rightarrow> GfxRenderInstPool" where
  "sortPool p =
     p\<lparr> pool := array_sort (\<lambda>a b. compareRenderInsts (insts p ! a) (insts p ! b)) (pool p) \<rparr>"

text \<open>
  The submission loop of \<open>executeOnPass\<close>, from position \<open>i\<close> on: it stops at the first
  instance that is not visible, and reading \<open>_flags\<close> of a position past the array is a
  TypeError.
\<close>

function drawInsts ::
    "Collaborators \<Rightarrow> GfxRenderInstPool \<Rightarrow> nat \<Rightarrow> GfxRenderPassCall list
      \<Rightarrow> error + (GfxRenderInstPool \<times> GfxRenderPassCall list)" where
  "drawInsts env p i pass =
     (if i < renderInstAllocCount p then
        (if \<not> i < length (pool p) then Inl TypeError
         else if flags (instAt p i) AND VISIBLE = 0 then Inr (p, pass)
         else
           (case drawOnPass env (instAt p i) pass of
              Inl e \<Rightarrow> Inl e
            | Inr (this', pass') \<Rightarrow>
                drawInsts env (p\<lparr> insts := (insts p)[pool p ! i := this'] \<rparr>) (i + 1) pass'))
      else Inr (p, pass))"
  by pat_completeness auto
termination
  by (relation "measure (\<lambda>(env, p, i, pass). renderInstAllocCount p - i)") auto

declare drawInsts.simps [simp del]

definition executeOnPass ::
    "Collaborators \<Rightarrow> GfxRenderInstManager \<Rightarrow> GfxRenderPassCall list
      \<Rightarrow> error + (GfxRenderInstManager \<times> GfxRenderPassCall list)" where
  "executeOnPass env m pass =
     (if renderInstAllocCount (gfxRenderInstPool m) = 0 then Inr (m, pass)
      else
        (case drawInsts env (sortPool (gfxRenderInstPool m)) 0 pass of
           Inl e \<Rightarrow> Inl e
         | Inr (p, pass') \<Rightarrow>
             (case pool_reset p of
                Inl e \<Rightarrow> Inl e
              | Inr p' \<Rightarrow> Inr (m\<lparr> gfxRenderInstPool := p' \<rparr>, pass'))))"

section \<open>Auxiliary notions and example states\<close>

text \<open>
  The order that \<open>compareRenderInsts\<close> realises: \<open>a\<close> may stand before \<open>b\<close> when both are
  visible with keys in ascending order, or when \<open>b\<close> is not visible.
\<close>

definition instLe :: "GfxRenderInst \<Rightarrow> GfxRenderInst \<Rightarrow> bool" where
  "instLe a b \<longleftrightarrow>
     (flags a AND VISIBLE \<noteq> 0 \<and> flags b AND VISIBLE \<noteq> 0 \<and> sortKey a \<le> sortKey b)
     \<or> flags b AND VISIBLE = 0"

text \<open>A pool of three live slots: a template, then visible instances with keys 10 and 5.\<close>

definition demo_pool :: GfxRenderInstPool where
  "demo_pool =
     \<lparr> insts = [new_GfxRenderInst,
                new_GfxRenderInst\<lparr> sortKey := 10, flags := VISIBLE \<rparr>,
                new_GfxRenderInst\<lparr> sortKey := 5, flags := VISIBLE \<rparr>],
       pool = [0, 1, 2],
       renderInstAllocCount = 3,
       renderInstFreeCount = 0 \<rparr>"

text \<open>
  References are valid when every address in the array is the address of a constructed
  instance. \<open>pooledInst p a\<close> is the object at address \<open>a\<close> as the pool holds it before a
  hand-out: the stored object, or a newly constructed one when the hand-out grows the pool.
\<close>

definition wfPool :: "GfxRenderInstPool \<Rightarrow> bool" where
  "wfPool p \<longleftrightarrow> list_all (\<lambda>a. a < length (insts p)) (pool p)"


text \<open>The instance after the plain assignments at the head of \<open>setFromTemplate\<close>.\<close>

definition templateBase :: "GfxRenderInst \<Rightarrow> GfxRenderInst \<Rightarrow> GfxRenderInst" where
  "templateBase this tmpl =
     this\<lparr> renderPipelineDescriptor := (renderPipelineDescriptor this)
                \<lparr> megaStateDescriptor :=
                    setMegaStateFlags_helper (megaStateDescriptor (renderPipelineDescriptor this))
                      (\<lambda>f. Some (megaStateDescriptor (renderPipelineDescriptor tmpl) f)),
                  program := program (renderPipelineDescriptor tmpl),
                  inputLayout := inputLayout (renderPipelineDescriptor tmpl),
                  topology := topology (renderPipelineDescriptor tmpl) \<rparr>,
              inputState := inputState tmpl,
              uniformBuffer := uniformBuffer tmpl \<rparr>"

text \<open>
  \<open>takesFromTemplate r t\<close>: the instance \<open>r\<close> carries the pipeline state and the bindings of
  the template \<open>t\<close> that copy-from-template transfers: mega-state, program, input layout,
  topology, input state, uniform buffer, binding layout, every sampler binding of \<open>t\<close>, and
  the word counts of the uniform buffers that the layout of \<open>t\<close> declares.
\<close>

definition takesFromTemplate :: "GfxRenderInst \<Rightarrow> GfxRenderInst \<Rightarrow> bool" where
  "takesFromTemplate r t \<longleftrightarrow>
     megaStateDescriptor (renderPipelineDescriptor r) = megaStateDescriptor (renderPipelineDescriptor t)
     \<and> program (renderPipelineDescriptor r) = program (renderPipelineDescriptor t)
     \<and> inputLayout (renderPipelineDescriptor r) = inputLayout (renderPipelineDescriptor t)
     \<and> topology (renderPipelineDescriptor r) = topology (renderPipelineDescriptor t)
     \<and> inputState r = inputState t
     \<and> uniformBuffer r = uniformBuffer t
     \<and> bindingLayout (bindingDescriptors r) = bindingLayout (bindingDescriptors t)
     \<and> js_get (bindingLayouts (renderPipelineDescriptor r)) 0 = bindingLayout (bindingDescriptors t)
     \<and> take (length (samplerBindings (bindingDescriptors t))) (samplerBindings (bindingDescriptors r))
         = samplerBindings (bindingDescriptors t)
     \<and> (case bindingLayout (bindingDescriptors t) of
           None \<Rightarrow> False
         | Some bl \<Rightarrow>
             take (numUniformBuffers bl) (map wordCount (uniformBufferBindings (bindingDescriptors r)))
             = take (numUniformBuffers bl) (map wordCount (uniformBufferBindings (bindingDescriptors t))))"




text \<open>
  An instance has its uniform buffer attached when it holds one, or has neither a binding
  layout nor a uniform-buffer binding that would need one.
\<close>

definition attached :: "GfxRenderInst \<Rightarrow> bool" where
  "attached this \<longleftrightarrow>
     uniformBuffer this \<noteq> None
     \<or> (bindingLayout (bindingDescriptors this) = None
         \<and> uniformBufferBindings (bindingDescriptors this) = [])"

text \<open>Every constructed instance has its uniform buffer attached.\<close>

definition allAttached :: "GfxRenderInstPool \<Rightarrow> bool" where
  "allAttached p \<longleftrightarrow> list_all attached (insts p)"

text \<open>
  The pool's counters as the specification describes them: \<open>freeCount \<le> allocCount \<le>
  slots.length\<close>, with \<open>freeCount\<close> the number of slots of the live prefix whose flags are 0.
\<close>

definition claimedInvariant :: "GfxRenderInstPool \<Rightarrow> bool" where
  "claimedInvariant p \<longleftrightarrow>
     renderInstFreeCount p \<le> renderInstAllocCount p
     \<and> renderInstAllocCount p \<le> length (pool p)
     \<and> renderInstFreeCount p =
         length (filter (\<lambda>a. flags (insts p ! a) = 0) (take (renderInstAllocCount p) (pool p)))"

subsection \<open>Call sequences\<close>

text \<open>
  A sequence of calls stops at the first exception. A caller mutates an instance through
  the reference it was handed: \<open>onInst a f\<close> runs the method \<open>f\<close> on the object at address \<open>a\<close>.
\<close>

definition andThen :: "error + 'a \<Rightarrow> ('a \<Rightarrow> error + 'b) \<Rightarrow> error + 'b" where
  "andThen r f = (case r of Inl e \<Rightarrow> Inl e | Inr x \<Rightarrow> f x)"

definition onInst ::
    "nat \<Rightarrow> (GfxRenderInst \<Rightarrow> error + GfxRenderInst) \<Rightarrow> GfxRenderInstManager
      \<Rightarrow> error + GfxRenderInstManager" where
  "onInst a f m =
     (let p = gfxRenderInstPool m in
        case f (insts p ! a) of
          Inl e \<Rightarrow> Inl e
        | Inr x \<Rightarrow> Inr (m\<lparr> gfxRenderInstPool := p\<lparr> insts := (insts p)[a := x] \<rparr> \<rparr>))"

definition setSortKey :: "int \<Rightarrow> GfxRenderInst \<Rightarrow> error + GfxRenderInst" where
  "setSortKey k this = Inr (this\<lparr> sortKey := k \<rparr>)"

text \<open>Projections used to read a state off.\<close>

definition counters :: "GfxRenderInstPool \<Rightarrow> nat \<times> nat \<times> nat" where
  "counters p = (renderInstAllocCount p, renderInstFreeCount p, length (pool p))"

definition slots :: "GfxRenderInstManager \<Rightarrow> nat list \<times> nat \<times> int" where
  "slots m = (pool (gfxRenderInstPool m), renderInstAllocCount (gfxRenderInstPool m),
              renderInstTemplateIndex m)"

definition offsetsOf :: "GfxRenderInstManager \<Rightarrow> nat \<Rightarrow> int option list" where
  "offsetsOf m a = dynamicUniformBufferOffsets (insts (gfxRenderInstPool m) ! a)"

text \<open>Collaborators: a device on which every pipeline is ready, and one on which none is.\<close>

definition readyEnv :: Collaborators where
  "readyEnv = \<lparr> createRenderPipeline = (\<lambda>_. 0), queryPipelineReady = (\<lambda>_. True),
                 createBindings = (\<lambda>_. 0), gfxBuffer = (\<lambda>_. Some 0) \<rparr>"

definition pendingEnv :: Collaborators where
  "pendingEnv = readyEnv\<lparr> queryPipelineReady := (\<lambda>_. False) \<rparr>"

text \<open>A dynamic uniform buffer that hands out consecutive chunks; its state is the next offset.\<close>

definition bumpAllocator :: "nat \<Rightarrow> int \<Rightarrow> int \<Rightarrow> int \<times> int" where
  "bumpAllocator ub wc u = (u, u + wc)"

definition allocateAt64 :: "nat \<Rightarrow> int \<Rightarrow> GfxRenderInst \<Rightarrow> error + GfxRenderInst" where
  "allocateAt64 slot wc this =
     map_sum id (\<lambda>(off, this', u'). this') (allocateUniformBuffer bumpAllocator slot wc this 64)"

definition plainLayout :: GfxBindingLayoutDescriptor where
  "plainLayout = \<lparr> numUniformBuffers = 0, numSamplers = 0 \<rparr>"

subsection \<open>Example runs, from a new manager\<close>

text \<open>A template is pushed and popped.\<close>

definition poppedTemplate :: "error + GfxRenderInstManager" where
  "poppedTemplate =
     andThen (pushTemplateRenderInst new_GfxRenderInstManager) (\<lambda>(t, m).
       popTemplateRenderInst m)"

text \<open>... and then the pool is reset, as at the end of \<open>executeOnPass\<close>.\<close>

definition poppedTemplateReset :: "error + GfxRenderInstPool" where
  "poppedTemplateReset = andThen poppedTemplate (\<lambda>m. pool_reset (gfxRenderInstPool m))"

text \<open>
  A template \<open>T1\<close> is pushed and given a binding layout, a second template \<open>T2\<close> is pushed
  under it and popped again: \<open>T1\<close> is still the active template.
\<close>

definition nestedPopped :: "error + GfxRenderInstManager" where
  "nestedPopped =
     andThen (pushTemplateRenderInst new_GfxRenderInstManager) (\<lambda>(t1, m).
     andThen (onInst (the t1) (setBindingBase [plainLayout] 0) m) (\<lambda>m.
     andThen (pushTemplateRenderInst m) (\<lambda>(t2, m).
       popTemplateRenderInst m)))"

text \<open>A template with a binding layout is pushed, and one instance under it.\<close>

definition underTemplate :: "error + GfxRenderInstManager" where
  "underTemplate =
     andThen (pushTemplateRenderInst new_GfxRenderInstManager) (\<lambda>(t, m).
     andThen (onInst (the t) (setBindingBase [plainLayout] 0) m) (\<lambda>m.
     andThen (pushRenderInst m) (\<lambda>(r, m). Inr m)))"

definition underTemplateExecuted :: "error + GfxRenderInstManager" where
  "underTemplateExecuted =
     andThen underTemplate (\<lambda>m.
     andThen (executeOnPass readyEnv m []) (\<lambda>(m', pass). Inr m'))"

text \<open>
  Two frames. In the first, \<open>T1\<close> and \<open>T2\<close> are pushed and both popped, and the frame is
  executed. In the second, three instances are pushed; the second gets sort key 5 and the
  third sort key 10.
\<close>

definition firstFrame :: "error + GfxRenderInstManager" where
  "firstFrame =
     andThen nestedPopped (\<lambda>m.
     andThen (popTemplateRenderInst m) (\<lambda>m.
     andThen (executeOnPass readyEnv m []) (\<lambda>(m, pass). Inr m)))"

definition secondFrame :: "error + GfxRenderInstManager" where
  "secondFrame =
     andThen firstFrame (\<lambda>m.
     andThen (pushRenderInst m) (\<lambda>(r1, m).
     andThen (pushRenderInst m) (\<lambda>(r2, m).
     andThen (onInst r2 (setSortKey 5) m) (\<lambda>m.
     andThen (pushRenderInst m) (\<lambda>(r3, m).
     onInst r3 (setSortKey 10) m)))))"

definition secondFrameExecuted :: "error + GfxRenderInstManager" where
  "secondFrameExecuted =
     andThen secondFrame (\<lambda>m.
     andThen (executeOnPass readyEnv m []) (\<lambda>(m', pass). Inr m'))"




text \<open>
  An instance is pushed, \<open>drawIndexes(6, 0)\<close> and then \<open>drawPrimitives(3, 0)\<close> are called on
  it, and the frame is executed: the calls made on the render pass.
\<close>

definition indexedThenPrimitives :: "error + GfxRenderPassCall list" where
  "indexedThenPrimitives =
     andThen (pushRenderInst new_GfxRenderInstManager) (\<lambda>(r, m).
     andThen (onInst r (\<lambda>i. Inr (drawIndexes 6 0 i)) m) (\<lambda>m.
     andThen (onInst r (\<lambda>i. Inr (drawPrimitives 3 0 i)) m) (\<lambda>m.
     andThen (executeOnPass readyEnv m []) (\<lambda>(m, pass). Inr pass))))"



text \<open>
  An instance whose binding base is set twice: first a layout of three uniform buffers,
  then a layout of one.
\<close>

definition shrunkLayout :: "error + GfxRenderInst" where
  "shrunkLayout =
     andThen (setBindingBase [\<lparr> numUniformBuffers = 3, numSamplers = 0 \<rparr>] 0 new_GfxRenderInst)
       (setBindingBase [\<lparr> numUniformBuffers = 1, numSamplers = 0 \<rparr>] 0)"

text \<open>
  An instance record whose layout declares as many uniform buffers as the offsets array has
  entries (no call sequence reaches it: \<open>_setBindingLayout\<close> refuses such a layout).
\<close>

definition overfullInst :: GfxRenderInst where
  "overfullInst =
     new_GfxRenderInst
       \<lparr> uniformBuffer := Some 0,
         bindingDescriptors :=
           \<lparr> bindingLayout = Some \<lparr> numUniformBuffers = 4, numSamplers = 0 \<rparr>,
             samplerBindings = [],
             uniformBufferBindings = [] \<rparr> \<rparr>"


section \<open>The sort step\<close>

lemma set_sort_insert: "set (sort_insert cmp x ys) = insert x (set ys)"
  by (induction ys) auto

lemma length_sort_insert: "length (sort_insert cmp x ys) = Suc (length ys)"
  by (induction ys) auto

lemma mset_sort_insert: "mset (sort_insert cmp x ys) = add_mset x (mset ys)"
  by (induction ys) auto

text \<open>
  Insertion keeps a list ordered for any transitive relation \<open>le\<close> that the comparator
  decides: a negative answer means \<open>le x y\<close>, any other answer means \<open>le y x\<close>.
\<close>

lemma sorted_sort_insert:
  assumes tr: "\<And>a b c. le a b \<Longrightarrow> le b c \<Longrightarrow> le a c"
    and lt: "\<And>y. cmp x y < 0 \<Longrightarrow> le x y"
    and ge: "\<And>y. \<not> cmp x y < 0 \<Longrightarrow> le y x"
  shows "sorted_wrt le ys \<Longrightarrow> sorted_wrt le (sort_insert cmp x ys)"
proof (induction ys)
  case Nil
  then show ?case by simp
next
  case (Cons y ys)
  show ?case
  proof (cases "cmp x y < 0")
    case True
    have "le x y" using lt True by blast
    moreover have "\<forall>z\<in>set ys. le x z"
      using Cons.prems \<open>le x y\<close> tr by auto
    ultimately show ?thesis using True Cons.prems by simp
  next
    case False
    have "le y x" using ge False by blast
    then show ?thesis using False Cons by (simp add: set_sort_insert)
  qed
qed

lemma sorted_foldl_insert:
  assumes tr: "\<And>a b c. le a b \<Longrightarrow> le b c \<Longrightarrow> le a c"
    and lt: "\<And>x y. cmp x y < 0 \<Longrightarrow> le x y"
    and ge: "\<And>x y. \<not> cmp x y < 0 \<Longrightarrow> le y x"
  shows "sorted_wrt le acc \<Longrightarrow> sorted_wrt le (foldl (\<lambda>acc x. sort_insert cmp x acc) acc xs)"
proof (induction xs arbitrary: acc)
  case Nil
  then show ?case by simp
next
  case (Cons x xs)
  have "sorted_wrt le (sort_insert cmp x acc)"
    using sorted_sort_insert [of le cmp x acc] tr lt ge Cons.prems by blast
  then show ?case using Cons.IH by simp
qed

lemma length_foldl_insert:
  "length (foldl (\<lambda>acc x. sort_insert cmp x acc) acc xs) = length acc + length xs"
  by (induction xs arbitrary: acc) (auto simp: length_sort_insert)

lemma mset_foldl_insert:
  "mset (foldl (\<lambda>acc x. sort_insert cmp x acc) acc xs) = mset acc + mset xs"
  by (induction xs arbitrary: acc) (auto simp: mset_sort_insert)

lemma length_array_sort: "length (array_sort cmp xs) = length xs"
  by (simp add: array_sort_def length_foldl_insert)

lemma mset_array_sort: "mset (array_sort cmp xs) = mset xs"
  by (simp add: array_sort_def mset_foldl_insert)

lemma instLe_trans: "instLe a b \<Longrightarrow> instLe b c \<Longrightarrow> instLe a c"
  by (auto simp: instLe_def)

lemma compare_lt_instLe: "compareRenderInsts a b < 0 \<Longrightarrow> instLe a b"
  by (auto simp: instLe_def compareRenderInsts_def split: if_splits)

lemma compare_ge_instLe: "\<not> compareRenderInsts a b < 0 \<Longrightarrow> instLe b a"
  by (auto simp: instLe_def compareRenderInsts_def split: if_splits)

lemma sortPool_fields:
  "insts (sortPool p) = insts p"
  "renderInstAllocCount (sortPool p) = renderInstAllocCount p"
  "renderInstFreeCount (sortPool p) = renderInstFreeCount p"
  "length (pool (sortPool p)) = length (pool p)"
  "mset (pool (sortPool p)) = mset (pool p)"
  by (simp_all add: sortPool_def length_array_sort mset_array_sort)

lemma sorted_sortPool:
  "sorted_wrt (\<lambda>a b. instLe (insts p ! a) (insts p ! b)) (pool (sortPool p))"
proof -
  let ?le = "\<lambda>a b. instLe (insts p ! a) (insts p ! b)"
  let ?cmp = "\<lambda>a b. compareRenderInsts (insts p ! a) (insts p ! b)"
  have "sorted_wrt ?le (foldl (\<lambda>acc x. sort_insert ?cmp x acc) [] (pool p))"
  proof (rule sorted_foldl_insert)
    show "\<And>a b c. ?le a b \<Longrightarrow> ?le b c \<Longrightarrow> ?le a c" by (rule instLe_trans)
    show "\<And>x y. ?cmp x y < 0 \<Longrightarrow> ?le x y" by (rule compare_lt_instLe)
    show "\<And>x y. \<not> ?cmp x y < 0 \<Longrightarrow> ?le y x" by (rule compare_ge_instLe)
    show "sorted_wrt ?le []" by simp
  qed
  then show ?thesis by (simp add: sortPool_def array_sort_def)
qed

lemma demo_sorted: "pool (sortPool demo_pool) = [2, 1, 0]"
  by (simp add: sortPool_def array_sort_def compareRenderInsts_def demo_pool_def
      new_GfxRenderInst_def VISIBLE_def)

text \<open>
  C1. After the sort step of \<open>executeOnPass\<close>, for any two positions \<open>i < j\<close> of the live
  range \<open>[0, renderInstAllocCount)\<close>, either both instances are visible and the sort key at
  \<open>i\<close> is at most the sort key at \<open>j\<close>, or the instance at \<open>j\<close> is not visible: the visible
  instances form an ascending prefix and every invisible slot comes after it.
\<close>

theorem sort_step_order:
  assumes "i < j" and "j < renderInstAllocCount p"
    and "renderInstAllocCount p \<le> length (pool p)"
  shows "(flags (instAt (sortPool p) i) AND VISIBLE \<noteq> 0 \<and>
          flags (instAt (sortPool p) j) AND VISIBLE \<noteq> 0 \<and>
          sortKey (instAt (sortPool p) i) \<le> sortKey (instAt (sortPool p) j))
         \<or> flags (instAt (sortPool p) j) AND VISIBLE = 0"
proof -
  from assms have "j < length (pool (sortPool p))"
    by (simp add: sortPool_fields)
  with sorted_sortPool [of p] \<open>i < j\<close>
  have "instLe (insts p ! (pool (sortPool p) ! i)) (insts p ! (pool (sortPool p) ! j))"
    by (simp add: sorted_wrt_iff_nth_less)
  then show ?thesis by (simp add: instLe_def instAt_def sortPool_fields)
qed

theorem sort_step_order_witness:
  "(0::nat) < 1 \<and> 1 < renderInstAllocCount demo_pool
   \<and> renderInstAllocCount demo_pool \<le> length (pool demo_pool)
   \<and> pool (sortPool demo_pool) = [2, 1, 0]
   \<and> sortKey (instAt (sortPool demo_pool) 0) = 5
   \<and> sortKey (instAt (sortPool demo_pool) 1) = 10
   \<and> flags (instAt (sortPool demo_pool) 2) AND VISIBLE = 0"
  using sort_step_order [of 0 1 demo_pool] demo_sorted
  by (simp add: instAt_def sortPool_def demo_pool_def new_GfxRenderInst_def VISIBLE_def)

text \<open>
  The ordering does not rest on the sorting algorithm: it holds of any arrangement
  in which the comparator puts no later element before an earlier one.
\<close>

lemma no_inversion_order:
  assumes "\<And>i j. i < j \<Longrightarrow> j < length ys \<Longrightarrow>
             \<not> compareRenderInsts (h ! (ys ! j)) (h ! (ys ! i)) < 0"
    and "i < j" and "j < length ys"
  shows "instLe (h ! (ys ! i)) (h ! (ys ! j))"
  using assms compare_ge_instLe by blast

section \<open>Evaluating call sequences\<close>

lemmas scen_simps = andThen_def onInst_def plainLayout_def pushTemplateRenderInst_def
  popTemplateRenderInst_def pushRenderInst_def allocRenderInstIndex_def returnRenderInst_def
  new_GfxRenderInstManager_def new_GfxRenderInstPool_def new_GfxRenderInst_def js_get_def
  pool_reset_def setBindingBase_def setBindingLayout_def grow_def js_set0_def
  setFromTemplate_def setSamplerBindings_def inst_reset_def VISIBLE_def Let_def

lemmas exec_simps = executeOnPass_def sortPool_def array_sort_def compareRenderInsts_def
  drawInsts.simps instAt_def drawOnPass_def fillBuffers_def readyEnv_def DRAW_INDEXED_def
  setSortKey_def

lemmas inst_simps = allocateAt64_def bumpAllocator_def allocateUniformBuffer_def js_set_def
  setGfxProgram_def drawIndexes_def drawPrimitives_def offsetsOf_def

section \<open>The pool\<close>

lemma js_get_Some: "js_get xs i = Some a \<Longrightarrow> 0 \<le> i \<and> nat i < length xs \<and> a = xs ! nat i"
  by (auto simp: js_get_def split: if_splits)


lemma wfPool_nth: "wfPool p \<Longrightarrow> js_get (pool p) i = Some a \<Longrightarrow> a < length (insts p)"
  by (auto simp: wfPool_def list_all_length dest!: js_get_Some)

lemma alloc_wfPool: "wfPool p \<Longrightarrow> wfPool (snd (allocRenderInstIndex p))"
  by (auto simp: wfPool_def allocRenderInstIndex_def Let_def list_all_length nth_append)




text \<open>The loop of \<open>reset\<close> writes nothing but flags, and zeroes the flags of every address it visits.\<close>

lemma length_clearFlags: "length (clearFlags as h) = length h"
  by (induction as arbitrary: h) auto

lemma clearFlags_stays_zero:
  "a < length h \<Longrightarrow> flags (h ! a) = 0 \<Longrightarrow> flags (clearFlags as h ! a) = 0"
proof (induction as arbitrary: h)
  case Nil
  then show ?case by simp
next
  case (Cons b bs)
  have "flags (h[b := (h ! b)\<lparr> flags := 0 \<rparr>] ! a) = 0"
    using Cons.prems by (cases "a = b") auto
  then show ?case using Cons.IH Cons.prems(1) by simp
qed

lemma clearFlags_zero:
  "a \<in> set as \<Longrightarrow> a < length h \<Longrightarrow> flags (clearFlags as h ! a) = 0"
proof (induction as arbitrary: h)
  case Nil
  then show ?case by simp
next
  case (Cons b bs)
  show ?case
  proof (cases "a = b")
    case True
    have "flags (h[b := (h ! b)\<lparr> flags := 0 \<rparr>] ! a) = 0"
      using True Cons.prems(2) by simp
    then show ?thesis using Cons.prems(2) by (simp add: clearFlags_stays_zero)
  next
    case False
    then have "a \<in> set bs" using Cons.prems(1) by simp
    then show ?thesis using Cons.IH Cons.prems(2) by simp
  qed
qed

lemma clearFlags_only_flags:
  "a < length h \<Longrightarrow> (clearFlags as h ! a)\<lparr> flags := f \<rparr> = (h ! a)\<lparr> flags := f \<rparr>"
proof (induction as arbitrary: h)
  case Nil
  then show ?case by simp
next
  case (Cons b bs)
  have "(h[b := (h ! b)\<lparr> flags := 0 \<rparr>] ! a)\<lparr> flags := f \<rparr> = (h ! a)\<lparr> flags := f \<rparr>"
    using Cons.prems by (cases "a = b") auto
  then show ?case using Cons.IH [of "h[b := (h ! b)\<lparr> flags := 0 \<rparr>]"] Cons.prems by simp
qed

text \<open>
  What \<open>reset\<close> does establish: the allocation count is 0, the array of references and the
  constructed objects are kept, and every slot of the former live prefix has flags 0. The
  free count is left as it was.
\<close>

lemma pool_reset_effect:
  assumes "renderInstAllocCount p \<le> length (pool p)" and "wfPool p"
  shows "\<exists>p'. pool_reset p = Inr p'
           \<and> renderInstAllocCount p' = 0
           \<and> pool p' = pool p
           \<and> length (insts p') = length (insts p)
           \<and> (\<forall>i < renderInstAllocCount p. flags (instAt p' i) = 0)
           \<and> renderInstFreeCount p' = renderInstFreeCount p"
proof -
  let ?p' = "p\<lparr> insts := clearFlags (take (renderInstAllocCount p) (pool p)) (insts p),
                renderInstAllocCount := 0 \<rparr>"
  have r: "pool_reset p = Inr ?p'" using assms(1) by (simp add: pool_reset_def)
  have z: "flags (instAt ?p' i) = 0" if "i < renderInstAllocCount p" for i
  proof -
    have il: "i < length (pool p)" using that assms(1) by simp
    then have "pool p ! i \<in> set (take (renderInstAllocCount p) (pool p))"
      using that by (metis in_set_conv_nth length_take min_less_iff_conj nth_take)
    moreover have "pool p ! i < length (insts p)"
      using assms(2) il by (simp add: wfPool_def list_all_length)
    ultimately show ?thesis by (simp add: instAt_def clearFlags_zero)
  qed
  show ?thesis using r z by (simp add: length_clearFlags)
qed

text \<open>
  C4 (the code at the failing input). A template is pushed and popped, then the pool is
  reset: the allocation count is 0 but the free count is still 1 (the pool has one slot).
\<close>

theorem reset_keeps_freeCount:
  "map_sum id counters poppedTemplateReset = Inr (0, 1, 1)"
  by (simp add: poppedTemplateReset_def poppedTemplate_def counters_def scen_simps)

text \<open>
  C5 (the code at the failing input). With template \<open>T1\<close> still active at index 0 and one
  slot returned, \<open>allocRenderInstIndex\<close> answers index 0: the slot of the live template.
  The instance that \<open>pushRenderInst\<close> then returns is the active template's own object,
  now flagged visible.
\<close>

theorem alloc_returns_live_template:
  "map_sum id (\<lambda>m. (renderInstTemplateIndex m, renderInstFreeCount (gfxRenderInstPool m),
                     fst (allocRenderInstIndex (gfxRenderInstPool m)))) nestedPopped
    = Inr (0, 1, 0)
   \<and> map_sum id (\<lambda>(r, m). (r, js_get (pool (gfxRenderInstPool m)) (renderInstTemplateIndex m),
                          flags (insts (gfxRenderInstPool m) ! r)))
         (andThen nestedPopped pushRenderInst)
    = Inr (0, Some 0, VISIBLE)"
  by (simp add: nestedPopped_def scen_simps)

text \<open>
  C6 (the code at the failing input). The invariant (\<open>freeCount \<le> allocCount \<le>
  slots.length\<close>, \<open>freeCount\<close> the number of zero-flag slots of the live prefix) holds
  of a new pool. After a template is pushed it fails: the template's slot lies in the live
  prefix with flags 0 while the free count is 0. After the template is popped and the pool
  reset it fails again: the free count 1 exceeds the allocation count 0.
\<close>

theorem claimed_invariant_broken:
  "claimedInvariant new_GfxRenderInstPool
   \<and> map_sum id (\<lambda>(t, m). (counters (gfxRenderInstPool m), claimedInvariant (gfxRenderInstPool m)))
       (pushTemplateRenderInst new_GfxRenderInstManager) = Inr ((1, 0, 1), False)
   \<and> map_sum id (\<lambda>p. (counters p, claimedInvariant p)) poppedTemplateReset
       = Inr ((0, 1, 1), False)"
  by (simp add: claimedInvariant_def counters_def poppedTemplateReset_def poppedTemplate_def
      scen_simps)

section \<open>Copy-from-template\<close>

lemma setSamplers_Inr:
  "setSamplers m dsts = Inr r \<Longrightarrow> length m \<le> length dsts \<and> r = m @ drop (length m) dsts"
proof (induction m dsts arbitrary: r rule: setSamplers.induct)
  case (1 dsts)
  then show ?case by simp
next
  case (2 s m)
  then show ?case by simp
next
  case (3 s m dst dsts)
  then show ?case by (auto split: sum.splits)
qed

lemma copyWordCounts_Inr:
  "copyWordCounts n srcs dsts = Inr r \<Longrightarrow>
     n \<le> length srcs \<and> n \<le> length dsts \<and> length r = length dsts
     \<and> map wordOffset r = map wordOffset dsts
     \<and> map buffer r = map buffer dsts
     \<and> map wordCount r = take n (map wordCount srcs) @ drop n (map wordCount dsts)"
  by (induction n srcs dsts arbitrary: r rule: copyWordCounts.induct)
    (auto split: sum.splits)

lemma setBindingLayout_Inr:
  assumes "setBindingLayout bl this = Inr x"
  shows "sortKey x = sortKey this" "passMask x = passMask this" "flags x = flags this"
    "parentTemplateIndex x = parentTemplateIndex this" "drawStart x = drawStart this"
    "drawCount x = drawCount this" "inputState x = inputState this"
    "uniformBuffer x = uniformBuffer this"
    "dynamicUniformBufferOffsets x = dynamicUniformBufferOffsets this"
    "megaStateDescriptor (renderPipelineDescriptor x)
       = megaStateDescriptor (renderPipelineDescriptor this)"
    "program (renderPipelineDescriptor x) = program (renderPipelineDescriptor this)"
    "inputLayout (renderPipelineDescriptor x) = inputLayout (renderPipelineDescriptor this)"
    "topology (renderPipelineDescriptor x) = topology (renderPipelineDescriptor this)"
    "bindingLayouts (renderPipelineDescriptor x)
       = js_set0 (bindingLayouts (renderPipelineDescriptor this)) bl"
    "bindingLayout (bindingDescriptors x) = Some bl"
    "uniformBufferBindings (bindingDescriptors x) =
       grow (uniformBufferBindings (bindingDescriptors this)) (numUniformBuffers bl)
         \<lparr> buffer = None, wordOffset = 0, wordCount = 0 \<rparr>"
    "samplerBindings (bindingDescriptors x) =
       grow (samplerBindings (bindingDescriptors this)) (numSamplers bl)
         \<lparr> sampler = None, texture = None \<rparr>"
    "numUniformBuffers bl < length (dynamicUniformBufferOffsets this)"
  using assms by (auto simp: setBindingLayout_def Let_def split: if_splits)

lemma setSamplerBindings_Inr:
  assumes "setSamplerBindings m this = Inr x"
  shows "length m \<le> length (samplerBindings (bindingDescriptors this))"
    "x = this\<lparr> bindingDescriptors := (bindingDescriptors this)
           \<lparr> samplerBindings :=
               m @ drop (length m) (samplerBindings (bindingDescriptors this)) \<rparr> \<rparr>"
  using assms by (auto simp: setSamplerBindings_def split: sum.splits dest: setSamplers_Inr)

text \<open>A successful \<open>setFromTemplate\<close>, step by step.\<close>

lemma setFromTemplate_steps:
  assumes "setFromTemplate this tmpl = Inr x"
  shows "\<exists>bl this2 ubs.
    bindingLayout (bindingDescriptors tmpl) = Some bl
    \<and> setBindingLayout bl (templateBase this tmpl) = Inr this2
    \<and> length (samplerBindings (bindingDescriptors tmpl))
         \<le> length (samplerBindings (bindingDescriptors this2))
    \<and> copyWordCounts (numUniformBuffers bl) (uniformBufferBindings (bindingDescriptors tmpl))
         (uniformBufferBindings (bindingDescriptors this2)) = Inr ubs
    \<and> x = this2\<lparr> bindingDescriptors := (bindingDescriptors this2)
           \<lparr> samplerBindings := samplerBindings (bindingDescriptors tmpl)
                @ drop (length (samplerBindings (bindingDescriptors tmpl)))
                    (samplerBindings (bindingDescriptors this2)),
             uniformBufferBindings := ubs \<rparr> \<rparr>"
proof -
  from assms obtain bl where bl: "bindingLayout (bindingDescriptors tmpl) = Some bl"
    by (auto simp: setFromTemplate_def Let_def split: option.splits)
  from assms bl obtain this2 where s2: "setBindingLayout bl (templateBase this tmpl) = Inr this2"
    by (auto simp: setFromTemplate_def templateBase_def Let_def split: sum.splits)
  from assms bl s2 obtain this3 where
    s3: "setSamplerBindings (samplerBindings (bindingDescriptors tmpl)) this2 = Inr this3"
    by (auto simp: setFromTemplate_def templateBase_def Let_def split: sum.splits)
  from assms bl s2 s3 obtain ubs where
    cw: "copyWordCounts (numUniformBuffers bl) (uniformBufferBindings (bindingDescriptors tmpl))
           (uniformBufferBindings (bindingDescriptors this3)) = Inr ubs"
    and x: "x = this3\<lparr> bindingDescriptors :=
                  (bindingDescriptors this3)\<lparr> uniformBufferBindings := ubs \<rparr> \<rparr>"
    by (auto simp: setFromTemplate_def templateBase_def Let_def split: sum.splits)
  note t3 = setSamplerBindings_Inr [OF s3]
  have "uniformBufferBindings (bindingDescriptors this3)
          = uniformBufferBindings (bindingDescriptors this2)"
    by (subst t3(2)) simp
  with cw have cw2: "copyWordCounts (numUniformBuffers bl)
      (uniformBufferBindings (bindingDescriptors tmpl))
      (uniformBufferBindings (bindingDescriptors this2)) = Inr ubs"
    by simp
  have "x = this2\<lparr> bindingDescriptors := (bindingDescriptors this2)
           \<lparr> samplerBindings := samplerBindings (bindingDescriptors tmpl)
                @ drop (length (samplerBindings (bindingDescriptors tmpl)))
                    (samplerBindings (bindingDescriptors this2)),
             uniformBufferBindings := ubs \<rparr> \<rparr>"
    by (subst x, subst t3(2), subst t3(2)) simp
  with bl s2 t3(1) cw2 show ?thesis by blast
qed

lemma megaState_full_overlay:
  "setMegaStateFlags_helper dst (\<lambda>f. Some (src f)) = src"
  by (simp add: setMegaStateFlags_helper_def)

text \<open>What \<open>setFromTemplate\<close> takes from the template.\<close>

lemma setFromTemplate_takes:
  assumes "setFromTemplate this tmpl = Inr x"
  shows "takesFromTemplate x tmpl"
proof -
  from setFromTemplate_steps [OF assms] obtain bl this2 ubs where
    bl: "bindingLayout (bindingDescriptors tmpl) = Some bl"
    and s2: "setBindingLayout bl (templateBase this tmpl) = Inr this2"
    and cw: "copyWordCounts (numUniformBuffers bl) (uniformBufferBindings (bindingDescriptors tmpl))
       (uniformBufferBindings (bindingDescriptors this2)) = Inr ubs"
    and x: "x = this2\<lparr> bindingDescriptors := (bindingDescriptors this2)
           \<lparr> samplerBindings := samplerBindings (bindingDescriptors tmpl)
                @ drop (length (samplerBindings (bindingDescriptors tmpl)))
                    (samplerBindings (bindingDescriptors this2)),
             uniformBufferBindings := ubs \<rparr> \<rparr>"
    by blast
  note f = setBindingLayout_Inr [OF s2]
  note c = copyWordCounts_Inr [OF cw]
  have 1: "megaStateDescriptor (renderPipelineDescriptor x)
             = megaStateDescriptor (renderPipelineDescriptor tmpl)"
    using f(10) by (simp add: x megaState_full_overlay templateBase_def)
  have 2: "program (renderPipelineDescriptor x) = program (renderPipelineDescriptor tmpl)"
    using f(11) by (simp add: x templateBase_def)
  have 3: "inputLayout (renderPipelineDescriptor x) = inputLayout (renderPipelineDescriptor tmpl)"
    using f(12) by (simp add: x templateBase_def)
  have 4: "topology (renderPipelineDescriptor x) = topology (renderPipelineDescriptor tmpl)"
    using f(13) by (simp add: x templateBase_def)
  have 5: "inputState x = inputState tmpl" using f(7) by (simp add: x templateBase_def)
  have 6: "uniformBuffer x = uniformBuffer tmpl" using f(8) by (simp add: x templateBase_def)
  have 7: "bindingLayout (bindingDescriptors x) = bindingLayout (bindingDescriptors tmpl)"
    using f(15) by (simp add: x bl)
  have 8: "js_get (bindingLayouts (renderPipelineDescriptor x)) 0
             = bindingLayout (bindingDescriptors tmpl)"
    using f(14) by (simp add: x bl js_get_def js_set0_def split: list.splits)
  have 9: "take (length (samplerBindings (bindingDescriptors tmpl)))
             (samplerBindings (bindingDescriptors x))
           = samplerBindings (bindingDescriptors tmpl)"
    by (simp add: x)
  have "take (numUniformBuffers bl) (map wordCount ubs)
       = take (numUniformBuffers bl)
           (map wordCount (uniformBufferBindings (bindingDescriptors tmpl)))"
    using c by simp
  then have 10: "take (numUniformBuffers bl)
                   (map wordCount (uniformBufferBindings (bindingDescriptors x)))
       = take (numUniformBuffers bl)
           (map wordCount (uniformBufferBindings (bindingDescriptors tmpl)))"
    by (simp add: x)
  show ?thesis
    unfolding takesFromTemplate_def using 1 2 3 4 5 6 7 8 9 10 bl by simp
qed


text \<open>
  The uniform buffer stays attached: \<open>setBindingBase\<close> attaches one, and
  \<open>setFromTemplate\<close> takes the one of a template that has its own attached.
\<close>

lemma attached_new: "attached new_GfxRenderInst"
  by (simp add: attached_def new_GfxRenderInst_def)

lemma attached_setBindingBase: "setBindingBase layouts ub this = Inr x \<Longrightarrow> attached x"
  by (auto simp: setBindingBase_def attached_def split: if_splits sum.splits)

lemma attached_setFromTemplate:
  assumes "setFromTemplate this tmpl = Inr x" and "attached tmpl"
  shows "attached x"
proof -
  have t: "takesFromTemplate x tmpl" using assms(1) by (rule setFromTemplate_takes)
  then have "bindingLayout (bindingDescriptors tmpl) \<noteq> None"
    by (auto simp: takesFromTemplate_def split: option.splits)
  with assms(2) have "uniformBuffer tmpl \<noteq> None" by (auto simp: attached_def)
  with t show ?thesis by (simp add: attached_def takesFromTemplate_def)
qed

section \<open>Handing out instances\<close>














section \<open>Invariants of the manager\<close>

text \<open>
  Valid references and attached uniform buffers are invariants of the manager: they hold of
  a new manager and every call keeps them.
\<close>

lemma attached_flags [simp]: "attached (x\<lparr> flags := f \<rparr>) = attached x"
  by (simp add: attached_def)

lemma attached_parent [simp]: "attached (x\<lparr> parentTemplateIndex := i \<rparr>) = attached x"
  by (simp add: attached_def)

lemma attached_inst_reset: "attached (inst_reset x) = attached x"
  by (simp add: attached_def inst_reset_def)

lemma list_all_update: "list_all P xs \<Longrightarrow> P v \<Longrightarrow> list_all P (xs[a := v])"
  using set_update_subset_insert [of xs a v] by (auto simp: list_all_iff)

lemma alloc_allAttached: "allAttached p \<Longrightarrow> allAttached (snd (allocRenderInstIndex p))"
  by (auto simp: allAttached_def allocRenderInstIndex_def Let_def attached_new)

lemma allAttached_nth: "allAttached p \<Longrightarrow> a < length (insts p) \<Longrightarrow> attached (insts p ! a)"
  by (simp add: allAttached_def list_all_length)

lemma pushRenderInst_allAttached:
  assumes wf: "wfPool (gfxRenderInstPool m)"
    and att: "allAttached (gfxRenderInstPool m)"
    and push: "pushRenderInst m = Inr (a, m')"
  shows "allAttached (gfxRenderInstPool m')"
proof -
  obtain idx p where al: "allocRenderInstIndex (gfxRenderInstPool m) = (idx, p)"
    by (cases "allocRenderInstIndex (gfxRenderInstPool m)")
  then have p: "p = snd (allocRenderInstIndex (gfxRenderInstPool m))" by simp
  have wfp: "wfPool p" using wf p alloc_wfPool by simp
  have attp: "allAttached p" using att p alloc_allAttached by simp
  from push al obtain v where
    a: "js_get (pool p) idx = Some a"
    and m': "m' = m\<lparr> gfxRenderInstPool := p\<lparr> insts := (insts p)[a := v\<lparr> flags := VISIBLE \<rparr>] \<rparr> \<rparr>"
    and v: "(\<exists>t. js_get (pool p) (renderInstTemplateIndex m) = Some t
                \<and> setFromTemplate (insts p ! a) (insts p ! t) = Inr v)
            \<or> v = inst_reset (insts p ! a)"
    by (auto simp: pushRenderInst_def split: option.splits sum.splits if_splits)
  have alen: "a < length (insts p)" using wfp a by (rule wfPool_nth)
  have "attached v"
  proof -
    from v show ?thesis
    proof
      assume "\<exists>t. js_get (pool p) (renderInstTemplateIndex m) = Some t
                \<and> setFromTemplate (insts p ! a) (insts p ! t) = Inr v"
      then obtain t where t: "js_get (pool p) (renderInstTemplateIndex m) = Some t"
        and s: "setFromTemplate (insts p ! a) (insts p ! t) = Inr v" by blast
      have "t < length (insts p)" using wfp t by (rule wfPool_nth)
      then have "attached (insts p ! t)" using attp allAttached_nth by blast
      with s show ?thesis by (rule attached_setFromTemplate)
    next
      assume "v = inst_reset (insts p ! a)"
      then show ?thesis using attp alen allAttached_nth by (simp add: attached_inst_reset)
    qed
  qed
  then show ?thesis using attp by (simp add: m' allAttached_def list_all_update)
qed

lemma pushTemplate_allAttached:
  assumes wf: "wfPool (gfxRenderInstPool m)"
    and att: "allAttached (gfxRenderInstPool m)"
    and push: "pushTemplateRenderInst m = Inr (r, m')"
  shows "allAttached (gfxRenderInstPool m')"
proof -
  obtain idx p where al: "allocRenderInstIndex (gfxRenderInstPool m) = (idx, p)"
    by (cases "allocRenderInstIndex (gfxRenderInstPool m)")
  then have p: "p = snd (allocRenderInstIndex (gfxRenderInstPool m))" by simp
  have wfp: "wfPool p" using wf p alloc_wfPool by simp
  have attp: "allAttached p" using att p alloc_allAttached by simp
  show ?thesis
  proof (cases "js_get (pool p) idx")
    case None
    with push al have "gfxRenderInstPool m' = p"
      by (auto simp: pushTemplateRenderInst_def split: if_splits)
    then show ?thesis using attp by simp
  next
    case (Some a)
    have alen: "a < length (insts p)" using wfp Some by (rule wfPool_nth)
    show ?thesis
    proof (cases "0 \<le> renderInstTemplateIndex m")
      case False
      with push al Some have "gfxRenderInstPool m' = p\<lparr> insts := (insts p)[a := insts p ! a] \<rparr>"
        by (auto simp: pushTemplateRenderInst_def simp del: list_update_id)
      then show ?thesis using attp by (simp add: allAttached_def)
    next
      case True
      with push al Some obtain t x where
        t: "js_get (pool p) (renderInstTemplateIndex m) = Some t"
        and s: "setFromTemplate (insts p ! a) (insts p ! t) = Inr x"
        and m': "gfxRenderInstPool m' =
                   p\<lparr> insts := (insts p)
                      [a := x\<lparr> parentTemplateIndex := renderInstTemplateIndex m \<rparr>] \<rparr>"
        by (auto simp: pushTemplateRenderInst_def split: option.splits sum.splits)
      have "t < length (insts p)" using wfp t by (rule wfPool_nth)
      then have "attached (insts p ! t)" using attp allAttached_nth by blast
      with s have "attached x" by (rule attached_setFromTemplate)
      then show ?thesis using attp by (simp add: m' allAttached_def list_all_update)
    qed
  qed
qed

lemma popTemplate_allAttached:
  assumes wf: "wfPool (gfxRenderInstPool m)"
    and att: "allAttached (gfxRenderInstPool m)"
    and pop: "popTemplateRenderInst m = Inr m'"
  shows "allAttached (gfxRenderInstPool m')"
proof -
  from pop obtain a where
    a: "js_get (pool (gfxRenderInstPool m)) (renderInstTemplateIndex m) = Some a"
    and m': "gfxRenderInstPool m' = returnRenderInst a (gfxRenderInstPool m)"
    by (auto simp: popTemplateRenderInst_def Let_def split: option.splits)
  have "a < length (insts (gfxRenderInstPool m))" using wf a by (rule wfPool_nth)
  then have "attached (insts (gfxRenderInstPool m) ! a)" using att allAttached_nth by blast
  then show ?thesis
    using att by (simp add: m' returnRenderInst_def allAttached_def list_all_update)
qed

lemma drawOnPass_attached:
  "drawOnPass env this pass = Inr (this', pass') \<Longrightarrow> attached this \<Longrightarrow> attached this'"
  by (auto simp: drawOnPass_def fillBuffers_def attached_def Let_def
      split: if_splits option.splits sum.splits)

lemma new_manager_invariants:
  "wfPool (gfxRenderInstPool new_GfxRenderInstManager)"
  "allAttached (gfxRenderInstPool new_GfxRenderInstManager)"
  by (simp_all add: wfPool_def allAttached_def new_GfxRenderInstManager_def
      new_GfxRenderInstPool_def)

lemma wfPool_update:
  "wfPool p \<Longrightarrow> wfPool (p\<lparr> insts := (insts p)[a := v] \<rparr>)"
  by (simp add: wfPool_def)

lemma pushRenderInst_wfPool:
  assumes "wfPool (gfxRenderInstPool m)" and "pushRenderInst m = Inr (a, m')"
  shows "wfPool (gfxRenderInstPool m')"
proof -
  obtain idx p where al: "allocRenderInstIndex (gfxRenderInstPool m) = (idx, p)"
    by (cases "allocRenderInstIndex (gfxRenderInstPool m)")
  then have "wfPool p" using assms(1) alloc_wfPool [of "gfxRenderInstPool m"] by simp
  moreover from assms(2) al obtain v where
    "gfxRenderInstPool m' = p\<lparr> insts := (insts p)[a := v] \<rparr>"
    by (auto simp: pushRenderInst_def split: option.splits sum.splits)
  ultimately show ?thesis by (simp add: wfPool_update)
qed

lemma pushTemplate_wfPool:
  assumes "wfPool (gfxRenderInstPool m)" and "pushTemplateRenderInst m = Inr (r, m')"
  shows "wfPool (gfxRenderInstPool m')"
proof -
  obtain idx p where al: "allocRenderInstIndex (gfxRenderInstPool m) = (idx, p)"
    by (cases "allocRenderInstIndex (gfxRenderInstPool m)")
  then have "wfPool p" using assms(1) alloc_wfPool [of "gfxRenderInstPool m"] by simp
  moreover from assms(2) al have
    "pool (gfxRenderInstPool m') = pool p
     \<and> length (insts (gfxRenderInstPool m')) = length (insts p)"
    by (auto simp: pushTemplateRenderInst_def split: option.splits sum.splits if_splits)
  ultimately show ?thesis by (simp add: wfPool_def)
qed

lemma popTemplate_wfPool:
  assumes "wfPool (gfxRenderInstPool m)" and "popTemplateRenderInst m = Inr m'"
  shows "wfPool (gfxRenderInstPool m')"
  using assms
  by (auto simp: popTemplateRenderInst_def returnRenderInst_def wfPool_def Let_def
      split: option.splits)

lemma sortPool_wfPool: "wfPool p \<Longrightarrow> wfPool (sortPool p)"
proof -
  assume "wfPool p"
  moreover have "set (pool (sortPool p)) = set (pool p)"
    using sortPool_fields(5) [of p] by (rule mset_eq_setD)
  ultimately show ?thesis by (simp add: wfPool_def list_all_iff sortPool_fields)
qed

lemma sortPool_allAttached: "allAttached (sortPool p) = allAttached p"
  by (simp add: allAttached_def sortPool_fields)

lemma drawInsts_invariants:
  "drawInsts env p i pass = Inr (p', pass') \<Longrightarrow> wfPool p \<Longrightarrow> allAttached p \<Longrightarrow>
     wfPool p' \<and> allAttached p' \<and> pool p' = pool p
     \<and> renderInstAllocCount p' = renderInstAllocCount p"
proof (induction env p i pass rule: drawInsts.induct)
  case (1 env p i pass)
  show ?case
  proof (cases "i < renderInstAllocCount p \<and> i < length (pool p)
                  \<and> flags (instAt p i) AND VISIBLE \<noteq> 0")
    case False
    then have "p' = p"
      using "1.prems"(1) by (subst (asm) drawInsts.simps) (auto split: if_splits)
    then show ?thesis using "1.prems" by simp
  next
    case True
    then obtain this' pass1 where
      d: "drawOnPass env (instAt p i) pass = Inr (this', pass1)"
      and r: "drawInsts env (p\<lparr> insts := (insts p)[pool p ! i := this'] \<rparr>) (i + 1) pass1
                = Inr (p', pass')"
      using "1.prems"(1) by (subst (asm) drawInsts.simps) (auto split: sum.splits)
    let ?q = "p\<lparr> insts := (insts p)[pool p ! i := this'] \<rparr>"
    have "pool p ! i < length (insts p)"
      using True "1.prems"(2) by (simp add: wfPool_def list_all_length)
    then have "attached (instAt p i)"
      using "1.prems"(3) by (simp add: instAt_def allAttached_nth)
    then have "attached this'" using d drawOnPass_attached by blast
    then have aq: "allAttached ?q"
      using "1.prems"(3) by (simp add: allAttached_def list_all_update)
    have wq: "wfPool ?q" using "1.prems"(2) by (rule wfPool_update)
    have "wfPool p' \<and> allAttached p' \<and> pool p' = pool ?q
            \<and> renderInstAllocCount p' = renderInstAllocCount ?q"
      using "1.IH" [of "(this', pass1)" this' pass1] True d r wq aq by simp
    then show ?thesis by simp
  qed
qed

lemma clearFlags_attached: "list_all attached h \<Longrightarrow> list_all attached (clearFlags as h)"
proof (induction as arbitrary: h)
  case Nil
  then show ?case by simp
next
  case (Cons b bs)
  have "list_all attached (h[b := (h ! b)\<lparr> flags := 0 \<rparr>])"
  proof (cases "b < length h")
    case True
    then have "attached (h ! b)" using Cons.prems by (simp add: list_all_length)
    then show ?thesis using Cons.prems by (simp add: list_all_update)
  next
    case False
    then show ?thesis using Cons.prems by (simp add: list_update_beyond)
  qed
  then show ?case using Cons.IH by simp
qed

lemma pool_reset_invariants:
  "pool_reset p = Inr p' \<Longrightarrow> wfPool p \<Longrightarrow> allAttached p \<Longrightarrow> wfPool p' \<and> allAttached p'"
  by (auto simp: pool_reset_def wfPool_def allAttached_def length_clearFlags clearFlags_attached
      split: if_splits)

lemma executeOnPass_invariants:
  assumes "executeOnPass env m pass = Inr (m', pass')"
    and "wfPool (gfxRenderInstPool m)" and "allAttached (gfxRenderInstPool m)"
  shows "wfPool (gfxRenderInstPool m') \<and> allAttached (gfxRenderInstPool m')"
proof (cases "renderInstAllocCount (gfxRenderInstPool m) = 0")
  case True
  then have "m' = m" using assms(1) by (simp add: executeOnPass_def)
  then show ?thesis using assms by simp
next
  case False
  then obtain p1 p2 where
    d: "drawInsts env (sortPool (gfxRenderInstPool m)) 0 pass = Inr (p1, pass')"
    and r: "pool_reset p1 = Inr p2" and m': "gfxRenderInstPool m' = p2"
    using assms(1) by (auto simp: executeOnPass_def split: sum.splits)
  have "wfPool p1 \<and> allAttached p1"
    using drawInsts_invariants [OF d] assms(2,3) sortPool_wfPool sortPool_allAttached by blast
  then show ?thesis using pool_reset_invariants [OF r] m' by simp
qed

text \<open>
  The allocation count never exceeds the length of the array: every call keeps that bound.
\<close>

lemma alloc_count_bound:
  "renderInstAllocCount p \<le> length (pool p) \<Longrightarrow>
     renderInstAllocCount (snd (allocRenderInstIndex p))
       \<le> length (pool (snd (allocRenderInstIndex p)))"
  by (auto simp: allocRenderInstIndex_def Let_def)

lemma pool_reset_count_bound:
  "pool_reset p = Inr p' \<Longrightarrow> renderInstAllocCount p' \<le> length (pool p')"
  by (auto simp: pool_reset_def split: if_splits)

lemma pushRenderInst_count_bound:
  assumes "pushRenderInst m = Inr (a, m')"
    and "renderInstAllocCount (gfxRenderInstPool m) \<le> length (pool (gfxRenderInstPool m))"
  shows "renderInstAllocCount (gfxRenderInstPool m') \<le> length (pool (gfxRenderInstPool m'))"
proof -
  obtain idx p where al: "allocRenderInstIndex (gfxRenderInstPool m) = (idx, p)"
    by (cases "allocRenderInstIndex (gfxRenderInstPool m)")
  then have "renderInstAllocCount p \<le> length (pool p)"
    using assms(2) alloc_count_bound [of "gfxRenderInstPool m"] by simp
  moreover from assms(1) al obtain v where
    "gfxRenderInstPool m' = p\<lparr> insts := (insts p)[a := v] \<rparr>"
    by (auto simp: pushRenderInst_def split: option.splits sum.splits)
  ultimately show ?thesis by simp
qed

lemma pushTemplate_count_bound:
  assumes "pushTemplateRenderInst m = Inr (r, m')"
    and "renderInstAllocCount (gfxRenderInstPool m) \<le> length (pool (gfxRenderInstPool m))"
  shows "renderInstAllocCount (gfxRenderInstPool m') \<le> length (pool (gfxRenderInstPool m'))"
proof -
  obtain idx p where al: "allocRenderInstIndex (gfxRenderInstPool m) = (idx, p)"
    by (cases "allocRenderInstIndex (gfxRenderInstPool m)")
  then have "renderInstAllocCount p \<le> length (pool p)"
    using assms(2) alloc_count_bound [of "gfxRenderInstPool m"] by simp
  moreover from assms(1) al have
    "pool (gfxRenderInstPool m') = pool p
     \<and> renderInstAllocCount (gfxRenderInstPool m') = renderInstAllocCount p"
    by (auto simp: pushTemplateRenderInst_def split: option.splits sum.splits if_splits)
  ultimately show ?thesis by simp
qed

lemma popTemplate_count_bound:
  assumes "popTemplateRenderInst m = Inr m'"
    and "renderInstAllocCount (gfxRenderInstPool m) \<le> length (pool (gfxRenderInstPool m))"
  shows "renderInstAllocCount (gfxRenderInstPool m') \<le> length (pool (gfxRenderInstPool m'))"
  using assms
  by (auto simp: popTemplateRenderInst_def returnRenderInst_def Let_def split: option.splits)

lemma executeOnPass_count_bound:
  assumes "executeOnPass env m pass = Inr (m', pass')"
    and "renderInstAllocCount (gfxRenderInstPool m) \<le> length (pool (gfxRenderInstPool m))"
  shows "renderInstAllocCount (gfxRenderInstPool m') \<le> length (pool (gfxRenderInstPool m'))"
proof (cases "renderInstAllocCount (gfxRenderInstPool m) = 0")
  case True
  then have "m' = m" using assms(1) by (simp add: executeOnPass_def)
  then show ?thesis using assms(2) by simp
next
  case False
  then obtain p1 p2 where "pool_reset p1 = Inr p2" and "gfxRenderInstPool m' = p2"
    using assms(1) by (auto simp: executeOnPass_def split: sum.splits)
  then show ?thesis using pool_reset_count_bound by simp
qed

section \<open>Submitting\<close>

text \<open>
  C7. When the device reports the resolved pipeline not ready, \<open>drawOnPass\<close> returns with
  the render pass and the instance untouched and raises nothing. When it is ready (and the
  instance has its uniform buffer attached, or has no uniform-buffer binding), the calls
  added to the pass are \<open>setPipeline\<close>, \<open>setInputState\<close>, \<open>setBindings\<close> and a single draw
  call; the instance changes only in the buffers of its uniform-buffer bindings.
\<close>

theorem drawOnPass_ready_or_skip:
  "(\<not> queryPipelineReady env (createRenderPipeline env (renderPipelineDescriptor this)) \<longrightarrow>
      drawOnPass env this pass = Inr (this, pass))
   \<and> (queryPipelineReady env (createRenderPipeline env (renderPipelineDescriptor this))
        \<and> (uniformBufferBindings (bindingDescriptors this) = [] \<or> uniformBuffer this \<noteq> None) \<longrightarrow>
      (\<exists>bs. fillBuffers env (uniformBuffer this)
                (uniformBufferBindings (bindingDescriptors this)) = Inr bs
         \<and> drawOnPass env this pass =
            Inr (this\<lparr> bindingDescriptors :=
                        (bindingDescriptors this)\<lparr> uniformBufferBindings := bs \<rparr> \<rparr>,
                 pass @
                 [SetPipeline (createRenderPipeline env (renderPipelineDescriptor this)),
                  SetInputState (inputState this),
                  SetBindings 0
                    (createBindings env
                       ((bindingDescriptors this)\<lparr> uniformBufferBindings := bs \<rparr>))
                    (dynamicUniformBufferOffsets this),
                  if flags this AND DRAW_INDEXED \<noteq> 0
                  then DrawIndexed (drawCount this) (drawStart this)
                  else Draw (drawCount this) (drawStart this)])))"
  by (auto simp: drawOnPass_def fillBuffers_def Let_def split: option.splits)

theorem drawOnPass_ready_or_skip_witness:
  "\<not> queryPipelineReady pendingEnv
        (createRenderPipeline pendingEnv (renderPipelineDescriptor new_GfxRenderInst))
   \<and> drawOnPass pendingEnv new_GfxRenderInst [] = Inr (new_GfxRenderInst, [])
   \<and> queryPipelineReady readyEnv
        (createRenderPipeline readyEnv (renderPipelineDescriptor new_GfxRenderInst))
   \<and> uniformBufferBindings (bindingDescriptors new_GfxRenderInst) = []
   \<and> map_sum id snd (drawOnPass readyEnv new_GfxRenderInst []) =
       Inr [SetPipeline 0, SetInputState None,
            SetBindings 0 0 (replicate 4 (Some 0)), Draw None None]"
  using drawOnPass_ready_or_skip [of pendingEnv new_GfxRenderInst "[]"]
    drawOnPass_ready_or_skip [of readyEnv new_GfxRenderInst "[]"]
  by (auto simp: pendingEnv_def readyEnv_def new_GfxRenderInst_def DRAW_INDEXED_def)

text \<open>The side condition of C7 holds of every instance with its uniform buffer attached.\<close>

lemma attached_can_fill:
  "attached this \<Longrightarrow>
     uniformBufferBindings (bindingDescriptors this) = [] \<or> uniformBuffer this \<noteq> None"
  by (auto simp: attached_def)

text \<open>
  C9 (the code at the failing input). After \<open>drawIndexes(6, 0)\<close> and then
  \<open>drawPrimitives(3, 0)\<close> on one instance, the draw call submitted is indexed.
\<close>

theorem primitives_after_indexes_draws_indexed:
  "indexedThenPrimitives =
     Inr [SetPipeline 0, SetInputState None, SetBindings 0 0 (replicate 4 (Some 0)),
          DrawIndexed (Some 3) (Some 0)]"
  by (simp add: indexedThenPrimitives_def scen_simps inst_simps exec_simps)

section \<open>Uniform buffer allocation\<close>

lemma js_set_nth: "js_set xs i v ! i = Some v"
  by (auto simp: js_set_def nth_append)

text \<open>
  C8, as stated, fails: on an instance whose layout declares one uniform buffer (and whose
  binding array has three entries), slot 2 is allocated without any assertion and the
  offset 64 is returned; slot 3 fails with a TypeError, not an assertion.
\<close>

theorem slot_beyond_layout_not_asserted:
  "map_sum id (\<lambda>i. (map_option numUniformBuffers (bindingLayout (bindingDescriptors i)),
        length (uniformBufferBindings (bindingDescriptors i)),
        map_sum id fst (allocateUniformBuffer bumpAllocator 2 16 i 64),
        map_sum id fst (allocateUniformBuffer bumpAllocator 3 16 i 64))) shrunkLayout
   = Inr (Some 1, 3, Inr (Some 64), Inl TypeError)"
  by (simp add: shrunkLayout_def scen_simps inst_simps eval_nat_numeral)

text \<open>
  C8, amended. On an instance with a binding layout and a uniform buffer,
  \<open>allocateUniformBuffer\<close> fails with the assertion exactly when the layout's uniform-buffer
  count is not below the length of the offsets array; the slot is not checked. Past the
  assertion, a slot outside the instance's uniform-buffer binding array is a TypeError; a
  slot inside it gets the offset the collaborator answered, its binding gets the word count
  (and word offset 0), and that offset is returned.
\<close>

theorem allocateUniformBuffer_cases:
  assumes "bindingLayout (bindingDescriptors this) = Some bl"
    and "uniformBuffer this = Some ub"
    and "allocateChunk ub wc u = (off, u')"
  shows "(\<not> numUniformBuffers bl < length (dynamicUniformBufferOffsets this) \<longrightarrow>
            allocateUniformBuffer allocateChunk slot wc this u = Inl AssertionFailed)
       \<and> (numUniformBuffers bl < length (dynamicUniformBufferOffsets this)
            \<and> \<not> slot < length (uniformBufferBindings (bindingDescriptors this)) \<longrightarrow>
            allocateUniformBuffer allocateChunk slot wc this u = Inl TypeError)
       \<and> (numUniformBuffers bl < length (dynamicUniformBufferOffsets this)
            \<and> slot < length (uniformBufferBindings (bindingDescriptors this)) \<longrightarrow>
            (\<exists>this'. allocateUniformBuffer allocateChunk slot wc this u = Inr (Some off, this', u')
               \<and> dynamicUniformBufferOffsets this' ! slot = Some off
               \<and> wordCount (uniformBufferBindings (bindingDescriptors this') ! slot) = wc
               \<and> wordOffset (uniformBufferBindings (bindingDescriptors this') ! slot) = 0))"
  using assms
  by (auto simp: allocateUniformBuffer_def Let_def js_set_nth)

lemma shrunkLayout_facts:
  "bindingLayout (bindingDescriptors (projr shrunkLayout))
     = Some \<lparr> numUniformBuffers = 1, numSamplers = 0 \<rparr>"
  "uniformBuffer (projr shrunkLayout) = Some 0"
  "length (dynamicUniformBufferOffsets (projr shrunkLayout)) = 4"
  "length (uniformBufferBindings (bindingDescriptors (projr shrunkLayout))) = 3"
  by (simp_all add: shrunkLayout_def scen_simps)

lemma overfullInst_facts:
  "bindingLayout (bindingDescriptors overfullInst)
     = Some \<lparr> numUniformBuffers = 4, numSamplers = 0 \<rparr>"
  "uniformBuffer overfullInst = Some 0"
  "length (dynamicUniformBufferOffsets overfullInst) = 4"
  by (simp_all add: overfullInst_def new_GfxRenderInst_def)

theorem allocateUniformBuffer_cases_witness:
  "bindingLayout (bindingDescriptors (projr shrunkLayout))
     = Some \<lparr> numUniformBuffers = 1, numSamplers = 0 \<rparr>
   \<and> uniformBuffer (projr shrunkLayout) = Some 0
   \<and> bumpAllocator 0 16 64 = (64, 80)
   \<and> numUniformBuffers \<lparr> numUniformBuffers = 1, numSamplers = 0 \<rparr>
        < length (dynamicUniformBufferOffsets (projr shrunkLayout))
   \<and> (0::nat) < length (uniformBufferBindings (bindingDescriptors (projr shrunkLayout)))
   \<and> \<not> (3::nat) < length (uniformBufferBindings (bindingDescriptors (projr shrunkLayout)))
   \<and> map_sum id fst (allocateUniformBuffer bumpAllocator 0 16 (projr shrunkLayout) 64)
       = Inr (Some 64)
   \<and> allocateUniformBuffer bumpAllocator 3 16 (projr shrunkLayout) 64 = Inl TypeError
   \<and> bindingLayout (bindingDescriptors overfullInst)
       = Some \<lparr> numUniformBuffers = 4, numSamplers = 0 \<rparr>
   \<and> uniformBuffer overfullInst = Some 0
   \<and> \<not> numUniformBuffers \<lparr> numUniformBuffers = 4, numSamplers = 0 \<rparr>
        < length (dynamicUniformBufferOffsets overfullInst)
   \<and> allocateUniformBuffer bumpAllocator 0 16 overfullInst 64 = Inl AssertionFailed"
proof -
  have b: "bumpAllocator 0 16 64 = (64, 80)" by (simp add: bumpAllocator_def)
  show ?thesis
    using allocateUniformBuffer_cases
        [where allocateChunk = bumpAllocator and slot = 0, OF shrunkLayout_facts(1,2) b]
      allocateUniformBuffer_cases
        [where allocateChunk = bumpAllocator and slot = 3, OF shrunkLayout_facts(1,2) b]
      allocateUniformBuffer_cases
        [where allocateChunk = bumpAllocator and slot = 0, OF overfullInst_facts(1,2) b]
      shrunkLayout_facts overfullInst_facts b
    by auto
qed

section \<open>Executing a frame\<close>

text \<open>
  C10. The sort step of \<open>executeOnPass\<close> reorders the whole array of references. With a
  template still pushed at index 0 and an instance at index 1 (addresses 0 and 1, two live
  slots), after the call index 0 holds the instance's object and the template index is
  still 0. In the second frame of the two-frame run one slot is live; after the call index
  1, beyond the live range, holds the object that index 0 held before.
\<close>

theorem executeOnPass_moves_references:
  "map_sum id slots underTemplate = Inr ([0, 1], 2, 0)
   \<and> map_sum id slots underTemplateExecuted = Inr ([1, 0], 0, 0)
   \<and> map_sum id slots secondFrame = Inr ([0, 1], 1, - 1)
   \<and> map_sum id slots secondFrameExecuted = Inr ([1, 0], 0, - 1)"
  by (simp add: underTemplate_def underTemplateExecuted_def secondFrame_def
      secondFrameExecuted_def firstFrame_def nestedPopped_def slots_def
      scen_simps inst_simps exec_simps)

end
